theory Spec2Isabelle
  imports Complex_Main "HOL-Library.Sublist"
begin

section \<open>Local backend selection (src/local-backend.ts)\<close>

text \<open>
  \<^verbatim>\<open>LocalBackendConfig\<close> and \<^verbatim>\<open>LocalBackendsConfig\<close> are the two interfaces of the
  source; an optional field is an \<open>option\<close>.
\<close>

record LocalBackendConfig =
  enabled :: bool
  command :: string
  args :: "string list option"

record LocalBackendsConfig =
  claude :: "LocalBackendConfig option"

text \<open>\<^verbatim>\<open>String.prototype.startsWith\<close>: the argument is a prefix of the receiver.\<close>

definition startsWith :: "string \<Rightarrow> string \<Rightarrow> bool" where
  "startsWith s p = (take (length p) s = p)"

text \<open>The disjunction computed into \<^verbatim>\<open>isAnthropicModel\<close>.\<close>

definition isAnthropicModel :: "string \<Rightarrow> bool" where
  "isAnthropicModel modelId =
     (startsWith modelId ''anthropic/'' \<or>
      modelId = ''claude'' \<or>
      modelId = ''sonnet'' \<or>
      modelId = ''opus'' \<or>
      modelId = ''haiku'')"

text \<open>
  \<^verbatim>\<open>getLocalBackend(modelId, config?)\<close>: \<open>None\<close> is \<^verbatim>\<open>undefined\<close>, both for the
  missing argument and for the result. \<^verbatim>\<open>config.claude?.enabled\<close> is falsy when the
  \<^verbatim>\<open>claude\<close> entry is absent.
\<close>

definition getLocalBackend :: "string \<Rightarrow> LocalBackendsConfig option \<Rightarrow> LocalBackendConfig option" where
  "getLocalBackend modelId config =
     (case config of
        None \<Rightarrow> None
      | Some cfg \<Rightarrow>
          (case claude cfg of
             None \<Rightarrow> None
           | Some c \<Rightarrow>
               if enabled c then
                 (if isAnthropicModel modelId then Some c else None)
               else None))"

section \<open>JavaScript strings and numbers\<close>

text \<open>
  Strings are byte strings. \<^verbatim>\<open>trim\<close>, \<^verbatim>\<open>toLowerCase\<close> and \<^verbatim>\<open>toUpperCase\<close> are
  modelled on ASCII: the white space removed by \<^verbatim>\<open>trim\<close> is TAB, LF, VT, FF, CR and
  SPACE, and only the letters A-Z / a-z change case.
\<close>

definition isWhiteSpace :: "char \<Rightarrow> bool" where
  "isWhiteSpace c = (c \<in> set [CHR 0x09, CHR 0x0A, CHR 0x0B, CHR 0x0C, CHR 0x0D, CHR '' ''])"

definition trim :: "string \<Rightarrow> string" where
  "trim s = rev (dropWhile isWhiteSpace (rev (dropWhile isWhiteSpace s)))"

definition upperLetters :: string where
  "upperLetters = ''ABCDEFGHIJKLMNOPQRSTUVWXYZ''"

definition lowerLetters :: string where
  "lowerLetters = ''abcdefghijklmnopqrstuvwxyz''"

definition lowerChar :: "char \<Rightarrow> char" where
  "lowerChar c =
     (case map_of (zip upperLetters lowerLetters) c of Some d \<Rightarrow> d | None \<Rightarrow> c)"

definition upperChar :: "char \<Rightarrow> char" where
  "upperChar c =
     (case map_of (zip lowerLetters upperLetters) c of Some d \<Rightarrow> d | None \<Rightarrow> c)"

definition toLowerCase :: "string \<Rightarrow> string" where
  "toLowerCase s = map lowerChar s"















section \<open>The claw.credit payment backend (clawcredit.ts, in src/unnamed/part_000)\<close>





text \<open>
  JSON values. An object is the list of its members in order; \<^verbatim>\<open>JSON.parse\<close> yields
  objects whose keys are distinct.
\<close>

datatype json =
    JNull
  | JBool bool
  | JNumber rat
  | JString string
  | JArray "json list"
  | JObject "(string \<times> json) list"
















text \<open>\<^verbatim>\<open>a || b\<close> on an optional string: the missing and the empty string are falsy.\<close>

definition orElse :: "string option \<Rightarrow> string \<Rightarrow> string" where
  "orElse a b = (case a of None \<Rightarrow> b | Some s \<Rightarrow> if s = [] then b else s)"

text \<open>
  \<^verbatim>\<open>createClawCreditFetch(config)\<close> computes four constants and throws when the trimmed
  token is empty; otherwise it returns the closure, which is the record of the four
  constants here.
\<close>

datatype error = Error string | RangeError | TypeError





text \<open>
  The second half of the closure, from the reply of \<^verbatim>\<open>fetch\<close> on. A reply has a
  status, an optional \<^verbatim>\<open>content-type\<close> header and a text.
\<close>

record FetchResponse =
  fr_status :: nat
  fr_content_type :: "string option"
  fr_text :: string

definition ok :: "FetchResponse \<Rightarrow> bool" where
  "ok r = (200 \<le> fr_status r \<and> fr_status r \<le> 299)"

text \<open>
  The body of a constructed response is a text handed over as it is, or the text
  \<^verbatim>\<open>JSON.stringify\<close> makes of a value.
\<close>

datatype ResponseBody = Text string | Stringify json

record Response =
  status :: nat
  content_type :: string
  body :: ResponseBody

text \<open>
  \<^verbatim>\<open>new Response(body, {status, headers})\<close> with a body that is not null, as the Fetch
  standard initialises a response: a status outside 200..599 is a \<^verbatim>\<open>RangeError\<close>, a
  null body status (101, 103, 204, 205, 304) is a \<^verbatim>\<open>TypeError\<close>.
\<close>

definition nullBodyStatus :: "nat \<Rightarrow> bool" where
  "nullBodyStatus s = (s = 101 \<or> s = 103 \<or> s = 204 \<or> s = 205 \<or> s = 304)"

definition newResponse :: "ResponseBody \<Rightarrow> nat \<Rightarrow> string \<Rightarrow> error + Response" where
  "newResponse b s ct =
     (if s < 200 \<or> 599 < s then Inl RangeError
      else if nullBodyStatus s then Inl TypeError
      else Inr \<lparr>status = s, content_type = ct, body = b\<rparr>)"

text \<open>
  \<^verbatim>\<open>parsed && typeof parsed === "object" && "merchant_response" in parsed\<close>: the
  falsy values are \<^verbatim>\<open>null\<close>, \<^verbatim>\<open>false\<close>, \<^verbatim>\<open>0\<close> and the empty string; \<^verbatim>\<open>typeof\<close> is
  \<^verbatim>\<open>"object"\<close> for \<^verbatim>\<open>null\<close>, arrays and objects; an array parsed from JSON has no such
  property.
\<close>

definition truthy :: "json \<Rightarrow> bool" where
  "truthy v =
     (case v of JNull \<Rightarrow> False | JBool b \<Rightarrow> b | JNumber n \<Rightarrow> n \<noteq> 0
      | JString s \<Rightarrow> s \<noteq> [] | JArray _ \<Rightarrow> True | JObject _ \<Rightarrow> True)"

definition typeofObject :: "json \<Rightarrow> bool" where
  "typeofObject v =
     (case v of JNull \<Rightarrow> True | JArray _ \<Rightarrow> True | JObject _ \<Rightarrow> True | _ \<Rightarrow> False)"

definition getMember :: "json \<Rightarrow> string \<Rightarrow> json option" where
  "getMember v k = (case v of JObject kvs \<Rightarrow> map_of kvs k | _ \<Rightarrow> None)"

definition merchantResponse :: "json \<Rightarrow> json" where
  "merchantResponse parsed =
     (if truthy parsed \<and> typeofObject parsed \<and> getMember parsed ''merchant_response'' \<noteq> None
      then the (getMember parsed ''merchant_response'')
      else parsed)"

text \<open>\<^verbatim>\<open>v ?? {}\<close> on a JSON value: only \<^verbatim>\<open>null\<close> is replaced.\<close>

definition orEmptyObject :: "json \<Rightarrow> json" where
  "orEmptyObject v = (case v of JNull \<Rightarrow> JObject [] | _ \<Rightarrow> v)"

definition payResult :: "(string \<Rightarrow> json option) \<Rightarrow> FetchResponse \<Rightarrow> error + Response" where
  "payResult JSON_parse payResponse =
     (let text = fr_text payResponse;
          contentType = orElse (fr_content_type payResponse) ''application/json''
      in if \<not> ok payResponse then
           newResponse (Text text) (fr_status payResponse) contentType
         else
           (let parsed = (case JSON_parse text of
                            Some v \<Rightarrow> v
                          | None \<Rightarrow> JObject [(''raw'', JString text)])
            in newResponse (Stringify (orEmptyObject (merchantResponse parsed))) 200
                 ''application/json''))"

section \<open>The router, the dispatcher, the fallback executor and the session pins\<close>

text \<open>
  These live in \<^verbatim>\<open>src/proxy.ts\<close> of the repository, which the tests import
  (\<^verbatim>\<open>startProxy\<close>) and whose source is missing. Each definition of this section
  follows the words of the specification.
\<close>

text \<open>
  Modelled from the spec: the explicit-model normalization of the router in proxy.ts
  (section 4.3, ``trim whitespace, lowercase the vendor prefix segment before the first
  \<^verbatim>\<open>/\<close>, preserve the rest''). An id without a \<^verbatim>\<open>/\<close> has no vendor prefix segment and is
  only trimmed.
\<close>

definition normalizeModel :: "string \<Rightarrow> string" where
  "normalizeModel model =
     (let t = trim model;
          vendor = takeWhile (\<lambda>c. c \<noteq> CHR ''/'') t;
          rest = dropWhile (\<lambda>c. c \<noteq> CHR ''/'') t
      in if rest = [] then t else toLowerCase vendor @ rest)"









text \<open>
  Modelled from the spec: the scan of a body for a literal token in proxy.ts (section
  9): the token occurs in the text as a contiguous run.
\<close>

fun containsText :: "string \<Rightarrow> string \<Rightarrow> bool" where
  "containsText [] p = (p = [])"
| "containsText (c # cs) p = (prefix p (c # cs) \<or> containsText cs p)"







section \<open>Theorems\<close>

lemma startsWith_prefix: "startsWith s p = prefix p s"
  by (auto simp: startsWith_def prefix_def) (metis append_eq_conv_conj)

text \<open>
  Claim C10. \<^verbatim>\<open>getLocalBackend\<close> returns the configured Claude backend exactly when a
  config is given, its \<^verbatim>\<open>claude\<close> entry is present and enabled, and the model id
  starts with \<^verbatim>\<open>anthropic/\<close> or is one of the literals \<^verbatim>\<open>claude\<close>, \<^verbatim>\<open>sonnet\<close>,
  \<^verbatim>\<open>opus\<close>, \<^verbatim>\<open>haiku\<close>; in every other case the result is undefined.
\<close>

theorem getLocalBackend_exact:
  "getLocalBackend modelId config =
     (if (\<exists>cfg c. config = Some cfg \<and> claude cfg = Some c \<and> enabled c) \<and>
         (prefix ''anthropic/'' modelId \<or>
          modelId \<in> {''claude'', ''sonnet'', ''opus'', ''haiku''})
      then claude (the config) else None)"
  by (auto simp: getLocalBackend_def isAnthropicModel_def startsWith_prefix
           split: option.splits)










lemmas case_defs = lowerChar_def upperChar_def lowerLetters_def upperLetters_def


lemma lowerChar_idem: "lowerChar (lowerChar c) = lowerChar c"
  by (simp add: case_defs)







text \<open>
  Claim C5. A reply of \<^verbatim>\<open>/v1/transaction/pay\<close> whose status is not 2xx should come back
  with that status and that body. At status 304 the construction of the response throws
  instead, whatever the body and the content type are.
\<close>

theorem payResult_null_body_status:
  "payResult JSON_parse \<lparr>fr_status = 304, fr_content_type = ct, fr_text = t\<rparr> = Inl TypeError"
  by (simp add: payResult_def Let_def newResponse_def nullBodyStatus_def ok_def)

text \<open>
  Every other reply that is not 2xx and whose status \<^verbatim>\<open>new Response\<close> accepts is
  handed back with its status and its text.
\<close>

lemma payResult_not_ok:
  assumes "\<not> ok r" and "200 \<le> fr_status r" and "fr_status r \<le> 599" and "fr_status r \<noteq> 304"
  shows "payResult JSON_parse r =
           Inr \<lparr>status = fr_status r,
                content_type = orElse (fr_content_type r) ''application/json'',
                body = Text (fr_text r)\<rparr>"
  using assms by (auto simp: payResult_def Let_def newResponse_def nullBodyStatus_def ok_def)

text \<open>
  Claim C9, as amended. Every 2xx reply of \<^verbatim>\<open>/v1/transaction/pay\<close> yields a status-200
  JSON response. Its payload is \<^verbatim>\<open>{"raw": text}\<close> when the text is not valid JSON; the
  \<^verbatim>\<open>merchant_response\<close> member when the parsed reply is an object that has one, with
  \<^verbatim>\<open>{}\<close> in place of a \<^verbatim>\<open>null\<close> member; and otherwise the entire parsed reply, with
  \<^verbatim>\<open>{}\<close> in place of a parsed \<^verbatim>\<open>null\<close>.
\<close>

theorem payResult_ok:
  assumes "ok r"
  shows "payResult JSON_parse r =
           Inr \<lparr>status = 200, content_type = ''application/json'',
                body = Stringify
                  (case JSON_parse (fr_text r) of
                     None \<Rightarrow> JObject [(''raw'', JString (fr_text r))]
                   | Some JNull \<Rightarrow> JObject []
                   | Some (JObject kvs) \<Rightarrow>
                       (case map_of kvs ''merchant_response'' of
                          None \<Rightarrow> JObject kvs
                        | Some JNull \<Rightarrow> JObject []
                        | Some v \<Rightarrow> v)
                   | Some v \<Rightarrow> v)\<rparr>"
  using assms
  by (auto simp: payResult_def Let_def newResponse_def nullBodyStatus_def merchantResponse_def
        orEmptyObject_def truthy_def typeofObject_def getMember_def
        split: option.splits json.splits)

theorem payResult_ok_witness:
  "payResult (\<lambda>t. if t = ''{\"merchant_response\":null}'' then Some (JObject [(''merchant_response'', JNull)]) else None)
     \<lparr>fr_status = 200, fr_content_type = None, fr_text = ''{\"merchant_response\":null}''\<rparr> =
   Inr \<lparr>status = 200, content_type = ''application/json'', body = Stringify (JObject [])\<rparr>"
  using payResult_ok[of "\<lparr>fr_status = 200, fr_content_type = None, fr_text = ''{\"merchant_response\":null}''\<rparr>"
      "\<lambda>t. if t = ''{\"merchant_response\":null}'' then Some (JObject [(''merchant_response'', JNull)]) else None"]
  by (simp add: ok_def)

text \<open>
  Claim C9 as stated fails for the reply text \<^verbatim>\<open>null\<close>: the parsed reply has no
  \<^verbatim>\<open>merchant_response\<close> key, and what is forwarded is \<^verbatim>\<open>{}\<close>, not the parsed reply.
\<close>

theorem payResult_parsed_null:
  "payResult (\<lambda>t. if t = ''null'' then Some JNull else None)
     \<lparr>fr_status = 200, fr_content_type = None, fr_text = ''null''\<rparr> =
   Inr \<lparr>status = 200, content_type = ''application/json'', body = Stringify (JObject [])\<rparr>
   \<and> Stringify (JObject []) \<noteq> Stringify JNull"
  by (simp add: payResult_def Let_def newResponse_def nullBodyStatus_def merchantResponse_def
        orEmptyObject_def truthy_def typeofObject_def getMember_def ok_def)

lemma trim_fixed:
  assumes "s = [] \<or> (\<not> isWhiteSpace (hd s) \<and> \<not> isWhiteSpace (last s))"
  shows "trim s = s"
proof (cases s)
  case Nil
  then show ?thesis by (simp add: trim_def)
next
  case (Cons c cs)
  with assms have h: "\<not> isWhiteSpace (hd s)" and l: "\<not> isWhiteSpace (last s)" by auto
  have a: "dropWhile isWhiteSpace s = s" using h Cons by simp
  have "hd (rev s) = last s" using Cons by (simp add: hd_rev)
  then have b: "dropWhile isWhiteSpace (rev s) = rev s"
    using l Cons by (cases "rev s") auto
  show ?thesis by (simp add: trim_def a b)
qed

lemma trim_ends:
  assumes "trim s \<noteq> []"
  shows "\<not> isWhiteSpace (hd (trim s))" and "\<not> isWhiteSpace (last (trim s))"
proof -
  define u where "u = dropWhile isWhiteSpace s"
  define v where "v = dropWhile isWhiteSpace (rev u)"
  have t: "trim s = rev v" by (simp add: trim_def u_def v_def)
  with assms have v: "v \<noteq> []" by simp
  then have u: "u \<noteq> []" unfolding v_def by auto
  have "\<not> isWhiteSpace (hd v)" using v unfolding v_def by (rule hd_dropWhile)
  then show "\<not> isWhiteSpace (last (trim s))" using v by (simp add: t last_rev)
  have "rev u = takeWhile isWhiteSpace (rev u) @ v" by (simp add: v_def)
  then have "last (rev u) = last v" using v by (metis last_appendR)
  then have "last v = hd u" using u by (simp add: last_rev)
  moreover have "\<not> isWhiteSpace (hd u)" using u unfolding u_def by (rule hd_dropWhile)
  ultimately show "\<not> isWhiteSpace (hd (trim s))" using v by (simp add: t hd_rev)
qed

lemma trim_idem: "trim (trim s) = trim s"
  using trim_ends[of s] by (intro trim_fixed) blast

lemma lowerChar_slash: "(lowerChar c = CHR ''/'') = (c = CHR ''/'')"
  by (simp add: case_defs)

lemma lowerChar_space: "isWhiteSpace (lowerChar c) = isWhiteSpace c"
  by (simp add: case_defs isWhiteSpace_def)

lemma toLowerCase_idem: "toLowerCase (toLowerCase s) = toLowerCase s"
  by (simp add: toLowerCase_def lowerChar_idem)

lemma takeWhile_lower:
  "takeWhile (\<lambda>c. c \<noteq> CHR ''/'') (toLowerCase v @ r) =
     toLowerCase (takeWhile (\<lambda>c. c \<noteq> CHR ''/'') v) @
     (if \<forall>c\<in>set v. c \<noteq> CHR ''/'' then takeWhile (\<lambda>c. c \<noteq> CHR ''/'') r else [])"
  by (induction v) (auto simp: toLowerCase_def lowerChar_slash)

lemma normalizeModel_cases:
  "CHR ''/'' \<notin> set (trim m) \<Longrightarrow> normalizeModel m = trim m"
  "CHR ''/'' \<in> set (trim m) \<Longrightarrow>
     normalizeModel m =
       toLowerCase (takeWhile (\<lambda>c. c \<noteq> CHR ''/'') (trim m)) @
       dropWhile (\<lambda>c. c \<noteq> CHR ''/'') (trim m)"
  by (auto simp: normalizeModel_def Let_def dropWhile_eq_Nil_conv)

lemma normalizeModel_trim_fixed: "trim (normalizeModel m) = normalizeModel m"
proof (cases "CHR ''/'' \<in> set (trim m)")
  case False
  then show ?thesis by (simp add: normalizeModel_cases(1) trim_idem)
next
  case True
  define t where "t = trim m"
  define v where "v = takeWhile (\<lambda>c. c \<noteq> CHR ''/'') t"
  define r where "r = dropWhile (\<lambda>c. c \<noteq> CHR ''/'') t"
  have n: "normalizeModel m = toLowerCase v @ r"
    using normalizeModel_cases(2)[OF True] by (simp add: t_def v_def r_def)
  have tr: "t = v @ r" by (simp add: v_def r_def)
  have r: "r \<noteq> []" using True by (simp add: r_def t_def dropWhile_eq_Nil_conv)
  then have t: "t \<noteq> []" using tr by auto
  have hr: "hd r = CHR ''/''" using r hd_dropWhile[of "\<lambda>c. c \<noteq> CHR ''/''" t] by (simp add: r_def)
  have e1: "\<not> isWhiteSpace (hd t)" and e2: "\<not> isWhiteSpace (last t)"
    using trim_ends[of m] t by (simp_all add: t_def)
  have l: "last (toLowerCase v @ r) = last t" using r tr by simp
  have h: "\<not> isWhiteSpace (hd (toLowerCase v @ r))"
  proof (cases v)
    case Nil
    then show ?thesis using hr r by (simp add: toLowerCase_def isWhiteSpace_def)
  next
    case (Cons c cs)
    then have "hd t = c" using tr by simp
    then show ?thesis using e1 Cons by (simp add: toLowerCase_def lowerChar_space)
  qed
  show ?thesis unfolding n by (rule trim_fixed) (use h l e2 in simp)
qed

text \<open>
  Claim C8. Model-id normalization is idempotent: normalizing a normalized id changes
  nothing, for every input string.
\<close>

theorem normalizeModel_idempotent: "normalizeModel (normalizeModel x) = normalizeModel x"
proof (cases "CHR ''/'' \<in> set (trim x)")
  case False
  then have n: "normalizeModel x = trim x" by (rule normalizeModel_cases(1))
  have "CHR ''/'' \<notin> set (trim (trim x))" using False by (simp add: trim_idem)
  then have "normalizeModel (trim x) = trim (trim x)" by (rule normalizeModel_cases(1))
  then show ?thesis by (simp add: n trim_idem)
next
  case True
  define t where "t = trim x"
  define v where "v = takeWhile (\<lambda>c. c \<noteq> CHR ''/'') t"
  define r where "r = dropWhile (\<lambda>c. c \<noteq> CHR ''/'') t"
  have n: "normalizeModel x = toLowerCase v @ r"
    using normalizeModel_cases(2)[OF True] by (simp add: t_def v_def r_def)
  have r: "r \<noteq> []" using True by (simp add: r_def t_def dropWhile_eq_Nil_conv)
  have hr: "hd r = CHR ''/''" using r hd_dropWhile[of "\<lambda>c. c \<noteq> CHR ''/''" t] by (simp add: r_def)
  have vs: "\<forall>c\<in>set v. c \<noteq> CHR ''/''" unfolding v_def by (auto dest: set_takeWhileD)
  have tkr: "takeWhile (\<lambda>c. c \<noteq> CHR ''/'') r = []" using r hr by (cases r) auto
  have tk: "takeWhile (\<lambda>c. c \<noteq> CHR ''/'') (toLowerCase v @ r) = toLowerCase v"
  proof -
    have tv: "takeWhile (\<lambda>c. c \<noteq> CHR ''/'') v = v" using vs by (simp add: takeWhile_eq_all_conv)
    show ?thesis unfolding takeWhile_lower tv using vs tkr by simp
  qed
  have "length (takeWhile (\<lambda>c. c \<noteq> CHR ''/'') (toLowerCase v @ r)) = length (toLowerCase v)"
    by (simp only: tk)
  then have dr: "dropWhile (\<lambda>c. c \<noteq> CHR ''/'') (toLowerCase v @ r) = r"
    by (metis append_eq_conv_conj dropWhile_eq_drop)
  have tf: "trim (toLowerCase v @ r) = toLowerCase v @ r"
    using normalizeModel_trim_fixed[of x] by (simp add: n)
  have "CHR ''/'' \<in> set r" using r hr by (cases r) auto
  then have "CHR ''/'' \<in> set (trim (toLowerCase v @ r))" by (simp add: tf)
  then have "normalizeModel (toLowerCase v @ r) =
               toLowerCase (takeWhile (\<lambda>c. c \<noteq> CHR ''/'') (trim (toLowerCase v @ r))) @
               dropWhile (\<lambda>c. c \<noteq> CHR ''/'') (trim (toLowerCase v @ r))"
    by (rule normalizeModel_cases(2))
  then have "normalizeModel (toLowerCase v @ r) = toLowerCase v @ r"
    by (simp add: tf tk dr toLowerCase_idem)
  then show ?thesis by (simp add: n)
qed

















lemma containsText_sublist: "containsText s p = sublist p s"
  by (induction s) (simp_all add: sublist_Cons_right)



























end
